theory Spec2Isabelle
  imports Complex_Main "HOL-Library.Word"
begin

unbundle bit_operations_syntax

section \<open>The PHOS raw-data quality-control task (RawQcTask.cxx)\<close>

text \<open>
  The task keeps two tables of histograms, \<open>mHist1D\<close> and \<open>mHist2D\<close>, a list of
  per-channel spectra, the mode and three flags. Its entry points \<open>startOfCycle\<close>,
  \<open>monitorData\<close>, \<open>endOfCycle\<close>, \<open>endOfActivity\<close> and \<open>reset\<close> mutate them; here each
  takes the task state and returns the new one.

  Conventions of the embedding.
  \<^item> \<open>Float_t\<close> and \<open>Double_t\<close> values are real numbers: rounding is not modelled, so
    an equation between bin contents stands for equality up to rounding of the
    floating-point computation.
  \<^item> \<open>short\<close> is \<open>16 word\<close> and \<open>int\<close> is \<open>32 word\<close> where the source works on the
    bits (the gain bit of a fit-quality address, the error-type mask); addresses and
    indices that are only compared and added are \<open>int\<close>.
  \<^item> Undefined behaviour and aborts of the source are error values: an index beyond
    the \<open>cells\<close> span, a module number that leaves the four per-module slots of a
    histogram table, a channel with no spectrum, a fit-quality list that ends after an
    address.
\<close>

subsection \<open>Histograms of the ROOT library\<close>

text \<open>
  Of a histogram the model keeps what the task reads back: the axes given to the
  constructor, the bin contents (bin 0 of an axis is the underflow bin, bin \<open>n + 1\<close> the
  overflow bin) and, for a 2D histogram, the display range of \<open>SetMinimum\<close> and
  \<open>SetMaximum\<close>. Entry counts, statistics and bin errors are left out, and so is
  what \<open>Multiply\<close> and \<open>Divide\<close> do to the display range of their histogram.
\<close>

record TH1F =
  fNbins :: nat
  fXmin :: real
  fXmax :: real
  fArray :: "nat \<Rightarrow> real"

record TH2F =
  fXbins :: nat
  fXlow :: real
  fXup :: real
  fYbins :: nat
  fYlow :: real
  fYup :: real
  fArray2 :: "nat \<Rightarrow> real"
  fMinimum :: real
  fMaximum :: real

text \<open>\<open>TAxis::FindBin\<close> for an axis of \<open>n\<close> equal bins on \<open>[lo, hi)\<close>.\<close>

definition TAxis_FindBin :: "nat \<Rightarrow> real \<Rightarrow> real \<Rightarrow> real \<Rightarrow> nat" where
  "TAxis_FindBin n lo hi x =
     (if x < lo then 0
      else if hi \<le> x then n + 1
      else 1 + nat \<lfloor>real n * (x - lo) / (hi - lo)\<rfloor>)"

text \<open>The constructors \<open>new TH1F(name, title, n, lo, hi)\<close> and \<open>new TH2F(...)\<close>.\<close>

definition new_TH1F :: "nat \<Rightarrow> real \<Rightarrow> real \<Rightarrow> TH1F" where
  "new_TH1F n lo hi = \<lparr>fNbins = n, fXmin = lo, fXmax = hi, fArray = (\<lambda>_. 0)\<rparr>"

definition new_TH2F :: "nat \<Rightarrow> real \<Rightarrow> real \<Rightarrow> nat \<Rightarrow> real \<Rightarrow> real \<Rightarrow> TH2F" where
  "new_TH2F nx xlo xhi ny ylo yhi =
     \<lparr>fXbins = nx, fXlow = xlo, fXup = xhi, fYbins = ny, fYlow = ylo, fYup = yhi,
      fArray2 = (\<lambda>_. 0), fMinimum = - 1111, fMaximum = - 1111\<rparr>"


definition TH2_fNcells :: "TH2F \<Rightarrow> nat" where
  "TH2_fNcells h = (fXbins h + 2) * (fYbins h + 2)"

text \<open>\<open>TH2::GetBin(binx, biny)\<close>: the global bin number.\<close>

definition TH2_GetBin :: "TH2F \<Rightarrow> nat \<Rightarrow> nat \<Rightarrow> nat" where
  "TH2_GetBin h binx biny = binx + (fXbins h + 2) * biny"

definition TH2_FindBin :: "TH2F \<Rightarrow> real \<Rightarrow> real \<Rightarrow> nat" where
  "TH2_FindBin h x y =
     TH2_GetBin h (TAxis_FindBin (fXbins h) (fXlow h) (fXup h) x)
                  (TAxis_FindBin (fYbins h) (fYlow h) (fYup h) y)"

text \<open>
  \<open>TH2::Fill(x, y, w)\<close> adds \<open>w\<close> to the bin of \<open>(x, y)\<close>, under- and overflow bins
  included. \<open>TH2::Fill(x, y)\<close> is the case \<open>w = 1\<close>; its return value is the global bin,
  or \<open>-1\<close> when \<open>(x, y)\<close> lies in an under- or overflow bin.
\<close>

definition TH2_Fill :: "TH2F \<Rightarrow> real \<Rightarrow> real \<Rightarrow> real \<Rightarrow> TH2F" where
  "TH2_Fill h x y w =
     (let bin = TH2_FindBin h x y in h\<lparr>fArray2 := (fArray2 h)(bin := fArray2 h bin + w)\<rparr>)"

definition TH2_Fill_result :: "TH2F \<Rightarrow> real \<Rightarrow> real \<Rightarrow> int" where
  "TH2_Fill_result h x y =
     (if fXlow h \<le> x \<and> x < fXup h \<and> fYlow h \<le> y \<and> y < fYup h
      then int (TH2_FindBin h x y) else - 1)"

definition TH1_Fill :: "TH1F \<Rightarrow> real \<Rightarrow> TH1F" where
  "TH1_Fill h x =
     (let bin = TAxis_FindBin (fNbins h) (fXmin h) (fXmax h) x
      in h\<lparr>fArray := (fArray h)(bin := fArray h bin + 1)\<rparr>)"

text \<open>
  \<open>GetBinContent(bin)\<close> clamps the bin into the array; \<open>SetBinContent(bin, c)\<close> ignores
  a bin outside it; \<open>AddBinContent(bin)\<close> increments the cell.
\<close>

definition TH2_GetBinContent :: "TH2F \<Rightarrow> int \<Rightarrow> real" where
  "TH2_GetBinContent h bin =
     (if bin < 0 then fArray2 h 0
      else if int (TH2_fNcells h) \<le> bin then fArray2 h (TH2_fNcells h - 1)
      else fArray2 h (nat bin))"

definition TH2_SetBinContent :: "TH2F \<Rightarrow> int \<Rightarrow> real \<Rightarrow> TH2F" where
  "TH2_SetBinContent h bin c =
     (if bin < 0 \<or> int (TH2_fNcells h) \<le> bin then h
      else h\<lparr>fArray2 := (fArray2 h)(nat bin := c)\<rparr>)"

definition TH2_AddBinContent :: "TH2F \<Rightarrow> nat \<Rightarrow> TH2F" where
  "TH2_AddBinContent h bin = h\<lparr>fArray2 := (fArray2 h)(bin := fArray2 h bin + 1)\<rparr>"


text \<open>\<open>Reset()\<close> clears the contents and keeps the axes and the display range.\<close>

definition TH1_Reset :: "TH1F \<Rightarrow> TH1F" where
  "TH1_Reset h = h\<lparr>fArray := (\<lambda>_. 0)\<rparr>"

definition TH2_Reset :: "TH2F \<Rightarrow> TH2F" where
  "TH2_Reset h = h\<lparr>fArray2 := (\<lambda>_. 0)\<rparr>"

text \<open>
  \<open>h->Multiply(g)\<close> and \<open>h->Divide(g)\<close> work cell by cell over all cells of \<open>h\<close>,
  under- and overflow included; \<open>Divide\<close> stores 0 where the divisor is 0.
\<close>

definition TH2_Multiply :: "TH2F \<Rightarrow> TH2F \<Rightarrow> TH2F" where
  "TH2_Multiply h g =
     h\<lparr>fArray2 := (\<lambda>i. if i < TH2_fNcells h then fArray2 h i * fArray2 g i else fArray2 h i)\<rparr>"

definition TH2_Divide :: "TH2F \<Rightarrow> TH2F \<Rightarrow> TH2F" where
  "TH2_Divide h g =
     h\<lparr>fArray2 := (\<lambda>i. if i < TH2_fNcells h
                        then (if fArray2 g i \<noteq> 0 then fArray2 h i / fArray2 g i else 0)
                        else fArray2 h i)\<rparr>"

definition TH2_SetMinimum :: "TH2F \<Rightarrow> real \<Rightarrow> TH2F" where
  "TH2_SetMinimum h v = h\<lparr>fMinimum := v\<rparr>"

definition TH2_SetMaximum :: "TH2F \<Rightarrow> real \<Rightarrow> TH2F" where
  "TH2_SetMaximum h v = h\<lparr>fMaximum := v\<rparr>"


subsection \<open>The task state\<close>

text \<open>
  The enumerators that index \<open>mHist1D\<close> and \<open>mHist2D\<close>. The source writes
  \<open>mHist2D[kHGmeanM1 + mod]\<close> for the histogram of module \<open>mod\<close> (0 to 3) in the family
  that starts at \<open>kHGmeanM1\<close>; here the family name takes the module as its argument.
\<close>

datatype hist1D =
    kBadMapSummary
  | kHGmeanSummaryM1 nat
  | kHGrmsSummaryM1 nat
  | kLGmeanSummaryM1 nat
  | kLGrmsSummaryM1 nat
  | kCellSpM1 nat

datatype hist2D =
    kErrorNumber
  | kErrorType
  | kChi2M1 nat
  | kChi2NormM1 nat
  | kHGmeanM1 nat
  | kHGrmsM1 nat
  | kHGoccupM1 nat
  | kLGmeanM1 nat
  | kLGrmsM1 nat
  | kLGoccupM1 nat
  | kCellOccupM1 nat
  | kCellEM1 nat
  | kTimeEM1 nat
  | kLEDNpeaksM1 nat

record Cell =
  getAbsId :: int
  getEnergy :: real
  getTime :: real
  getHighGain :: bool

record TriggerRecord =
  getFirstEntry :: int
  getNumberOfObjects :: int

record RawReaderError =
  getFEC :: int
  getDDL :: int
  getError :: nat

text \<open>
  The members of the task. A slot of a histogram table that the mode does not create is
  a null pointer in the source and is never dereferenced in that mode; the tables are
  total here, and the null tests of \<open>startOfCycle\<close>, \<open>endOfCycle\<close> and \<open>reset\<close>, which
  guard histograms of the running mode, are true.
\<close>

record RawQcTask =
  mMode :: int
  mCheckChi2 :: bool
  mFinalized :: bool
  mInitBadMap :: bool
  mHist1D :: "hist1D \<Rightarrow> TH1F"
  mHist2D :: "hist2D \<Rightarrow> TH2F"
  mSpectra :: "TH1F list"

text \<open>
  What the task uses and its source file does not define: the channel decoder
  \<open>o2::phos::Geometry::absToRelNumbering(absId, relid)\<close>, given as the status it returns
  and the three numbers \<open>relid[0]\<close> (module, 1 to 4), \<open>relid[1]\<close> (row) and \<open>relid[2]\<close>
  (column) it leaves in the buffer; the threshold \<open>kOcccupancyTh\<close> of the task's header;
  and the peak search \<open>mSpSearcher->Search(h, 2, "goff", 0.1)\<close>.
\<close>

record externals =
  absToRelNumbering :: "int \<Rightarrow> bool \<times> int \<times> int \<times> int"
  kOcccupancyTh :: real
  Search :: "TH1F \<Rightarrow> int"

text \<open>
  Modelled from the spec: \<open>o2::phos::Mapping::NCHANNELS\<close> is declared outside the
  source file; the spec gives four modules of 64 rows and 56 columns, and the source
  divides \<open>absId - 1\<close> by 3584 to index an array of four counters.
\<close>

definition NCHANNELS :: int where
  "NCHANNELS = 14336"

datatype error =
    SpanIndexOutOfRange
  | HistogramIndexOutOfRange
  | SpectrumIndexOutOfRange
  | FitQualityListTruncated

text \<open>A loop whose body can fail: the first failure ends it.\<close>

fun forEach :: "('a \<Rightarrow> 's \<Rightarrow> error + 's) \<Rightarrow> 'a list \<Rightarrow> 's \<Rightarrow> error + 's" where
  "forEach f [] s = Inr s"
| "forEach f (x # xs) s = (case f x s of Inl e \<Rightarrow> Inl e | Inr s' \<Rightarrow> forEach f xs s')"

text \<open>Calls on a histogram of the table, as state transformers.\<close>

definition Multiply :: "hist2D \<Rightarrow> hist2D \<Rightarrow> RawQcTask \<Rightarrow> RawQcTask" where
  "Multiply a b s = s\<lparr>mHist2D := (mHist2D s)(a := TH2_Multiply (mHist2D s a) (mHist2D s b))\<rparr>"

definition Divide :: "hist2D \<Rightarrow> hist2D \<Rightarrow> RawQcTask \<Rightarrow> RawQcTask" where
  "Divide a b s = s\<lparr>mHist2D := (mHist2D s)(a := TH2_Divide (mHist2D s a) (mHist2D s b))\<rparr>"

definition Fill2D :: "hist2D \<Rightarrow> real \<Rightarrow> real \<Rightarrow> real \<Rightarrow> RawQcTask \<Rightarrow> RawQcTask" where
  "Fill2D a x y w s = s\<lparr>mHist2D := (mHist2D s)(a := TH2_Fill (mHist2D s a) x y w)\<rparr>"

definition Fill1D :: "hist1D \<Rightarrow> real \<Rightarrow> RawQcTask \<Rightarrow> RawQcTask" where
  "Fill1D a x s = s\<lparr>mHist1D := (mHist1D s)(a := TH1_Fill (mHist1D s a) x)\<rparr>"

definition Reset1D :: "hist1D \<Rightarrow> RawQcTask \<Rightarrow> RawQcTask" where
  "Reset1D a s = s\<lparr>mHist1D := (mHist1D s)(a := TH1_Reset (mHist1D s a))\<rparr>"

definition SetBinContent2D :: "hist2D \<Rightarrow> int \<Rightarrow> real \<Rightarrow> RawQcTask \<Rightarrow> RawQcTask" where
  "SetBinContent2D a bin c s =
     s\<lparr>mHist2D := (mHist2D s)(a := TH2_SetBinContent (mHist2D s a) bin c)\<rparr>"

definition AddBinContent2D :: "hist2D \<Rightarrow> nat \<Rightarrow> RawQcTask \<Rightarrow> RawQcTask" where
  "AddBinContent2D a bin s =
     s\<lparr>mHist2D := (mHist2D s)(a := TH2_AddBinContent (mHist2D s a) bin)\<rparr>"

text \<open>The content of cell \<open>i\<close> of the histogram \<open>mHist2D[k]\<close>, and its number of cells.\<close>

definition cellContent :: "RawQcTask \<Rightarrow> hist2D \<Rightarrow> nat \<Rightarrow> real" where
  "cellContent s k i = fArray2 (mHist2D s k) i"

definition nCells :: "RawQcTask \<Rightarrow> hist2D \<Rightarrow> nat" where
  "nCells s k = TH2_fNcells (mHist2D s k)"

subsection \<open>startOfCycle\<close>

definition startOfCycle_chi2 :: "nat \<Rightarrow> RawQcTask \<Rightarrow> RawQcTask" where
  "startOfCycle_chi2 modl s = Multiply (kChi2M1 modl) (kChi2NormM1 modl) s"

definition startOfCycle_pedestal :: "nat \<Rightarrow> RawQcTask \<Rightarrow> RawQcTask" where
  "startOfCycle_pedestal modl s =
     (let s = Multiply (kHGmeanM1 modl) (kHGoccupM1 modl) s;
          s = Multiply (kHGrmsM1 modl) (kHGoccupM1 modl) s;
          s = Multiply (kLGmeanM1 modl) (kLGoccupM1 modl) s;
          s = Multiply (kLGrmsM1 modl) (kLGoccupM1 modl) s
      in s)"

definition startOfCycle :: "RawQcTask \<Rightarrow> RawQcTask" where
  "startOfCycle s =
     (let s = (if mCheckChi2 s \<and> mFinalized s
               then (let s = fold startOfCycle_chi2 [0..<4] s
                     in if mMode s \<noteq> 1 then s\<lparr>mFinalized := False\<rparr> else s)
               else s)
      in if mMode s = 1 \<and> mFinalized s
         then (fold startOfCycle_pedestal [0..<4] s)\<lparr>mFinalized := False\<rparr>
         else s)"

subsection \<open>monitorData: the error tally\<close>

text \<open>
  \<open>int cont = h->GetBinContent(ibin)\<close> converts the content to a 32-bit \<open>int\<close>,
  truncating towards zero.
\<close>

definition Int_t_of :: "real \<Rightarrow> 32 word" where
  "Int_t_of c = word_of_int (if 0 \<le> c then \<lfloor>c\<rfloor> else \<lceil>c\<rceil>)"

text \<open>
  The body of the loop over \<open>hwerrors\<close>. \<open>1 << e.getError()\<close> is a shift of a 32-bit
  \<open>int\<close>; it is defined for shifts below 31.
\<close>

definition recordError :: "RawReaderError \<Rightarrow> RawQcTask \<Rightarrow> RawQcTask" where
  "recordError e s =
     (let x = real_of_int (getFEC e);
          y = real_of_int (getDDL e);
          ibin = TH2_Fill_result (mHist2D s kErrorNumber) x y;
          s = Fill2D kErrorNumber x y 1 s;
          cont = Int_t_of (TH2_GetBinContent (mHist2D s kErrorType) ibin);
          cont = cont OR push_bit (getError e) 1
      in SetBinContent2D kErrorType ibin (real_of_int (sint cont)) s)"

subsection \<open>monitorData: the bad-channel summary\<close>



subsection \<open>monitorData: the fit quality\<close>



subsection \<open>The cell loops\<close>

text \<open>
  \<open>for (const auto& tr : cellsTR) for (i = first; i < first + n; i++) { c = cells[i]; ... }\<close>:
  \<open>cells\<close> is a \<open>gsl::span\<close>, whose index operator terminates the program when the index
  is outside the span.
\<close>

definition eventCells :: "(Cell \<Rightarrow> RawQcTask \<Rightarrow> error + RawQcTask) \<Rightarrow> Cell list \<Rightarrow> TriggerRecord
    \<Rightarrow> RawQcTask \<Rightarrow> error + RawQcTask" where
  "eventCells body cells tr s =
     (let firstCellInEvent = getFirstEntry tr;
          lastCellInEvent = firstCellInEvent + getNumberOfObjects tr
      in forEach (\<lambda>i s. if 0 \<le> i \<and> i < int (length cells) then body (cells ! nat i) s
                         else Inl SpanIndexOutOfRange)
                 [firstCellInEvent..lastCellInEvent - 1] s)"

definition allCells :: "(Cell \<Rightarrow> RawQcTask \<Rightarrow> error + RawQcTask) \<Rightarrow> Cell list \<Rightarrow> TriggerRecord list
    \<Rightarrow> RawQcTask \<Rightarrow> error + RawQcTask" where
  "allCells body cells cellsTR s = forEach (eventCells body cells) cellsTR s"

subsection \<open>FillPhysicsHistograms\<close>

text \<open>The energy after \<open>if (!c.getHighGain()) e *= 16\<close>.\<close>

definition scaledEnergy :: "Cell \<Rightarrow> real" where
  "scaledEnergy c = (if \<not> getHighGain c then getEnergy c * 16 else getEnergy c)"

text \<open>The body of the inner loop of \<open>FillPhysicsHistograms\<close> for the cell \<open>c\<close>.\<close>

definition physicsCell :: "externals \<Rightarrow> Cell \<Rightarrow> RawQcTask \<Rightarrow> error + RawQcTask" where
  "physicsCell x c s =
     (let address = getAbsId c;
          e = scaledEnergy c
      in if e > kOcccupancyTh x
         then
           (let (ok, relid0, relid1, relid2) = absToRelNumbering x address
            in if relid0 - 1 < 0 \<or> 3 < relid0 - 1 then Inl HistogramIndexOutOfRange
               else
                 (let modl = nat (relid0 - 1);
                      ibin = TH2_FindBin (mHist2D s (kCellOccupM1 modl))
                               (real_of_int relid1 - 0.5) (real_of_int relid2 - 0.5);
                      n = TH2_GetBinContent (mHist2D s (kCellOccupM1 modl)) (int ibin);
                      emean = (if n > 0
                               then (e + TH2_GetBinContent (mHist2D s (kCellEM1 modl)) (int ibin) * n) / (n + 1)
                               else e);
                      s = SetBinContent2D (kCellEM1 modl) (int ibin) emean s;
                      s = AddBinContent2D (kCellOccupM1 modl) ibin s;
                      s = Fill2D (kTimeEM1 modl) e (getTime c) 1 s;
                      s = Fill1D (kCellSpM1 modl) e s
                  in Inr s))
         else Inr s)"

definition FillPhysicsHistograms :: "externals \<Rightarrow> Cell list \<Rightarrow> TriggerRecord list
    \<Rightarrow> RawQcTask \<Rightarrow> error + RawQcTask" where
  "FillPhysicsHistograms x cells cellsTR s = allCells (physicsCell x) cells cellsTR s"

subsection \<open>FillPedestalHistograms\<close>

definition pedestalCell :: "externals \<Rightarrow> Cell \<Rightarrow> RawQcTask \<Rightarrow> error + RawQcTask" where
  "pedestalCell x c s =
     (let address = getAbsId c;
          (ok, relid0, relid1, relid2) = absToRelNumbering x address
      in if relid0 - 1 < 0 \<or> 3 < relid0 - 1 then Inl HistogramIndexOutOfRange
         else
           (let modl = nat (relid0 - 1);
                bx = real_of_int relid1 - 0.5;
                by = real_of_int relid2 - 0.5
            in if getHighGain c
               then (let s = Fill2D (kHGmeanM1 modl) bx by (getEnergy c) s;
                         s = Fill2D (kHGrmsM1 modl) bx by (10000000 * getTime c) s;
                         s = Fill2D (kHGoccupM1 modl) bx by 1 s
                     in Inr s)
               else (let s = Fill2D (kLGmeanM1 modl) bx by (getEnergy c) s;
                         s = Fill2D (kLGrmsM1 modl) bx by (10000000 * getTime c) s;
                         s = Fill2D (kLGoccupM1 modl) bx by 1 s
                     in Inr s)))"

text \<open>The loop at the head of \<open>FillPedestalHistograms\<close>, run when \<open>mFinalized\<close> is set.\<close>

definition FillPedestal_restore :: "nat \<Rightarrow> RawQcTask \<Rightarrow> RawQcTask" where
  "FillPedestal_restore modl s =
     (let s = Multiply (kHGmeanM1 modl) (kHGoccupM1 modl) s;
          s = Multiply (kHGrmsM1 modl) (kHGoccupM1 modl) s;
          s = Multiply (kLGmeanM1 modl) (kLGoccupM1 modl) s;
          s = Multiply (kLGrmsM1 modl) (kLGoccupM1 modl) s
      in s)"

definition FillPedestal_head :: "RawQcTask \<Rightarrow> RawQcTask" where
  "FillPedestal_head s =
     (if mFinalized s then (fold FillPedestal_restore [0..<4] s)\<lparr>mFinalized := False\<rparr> else s)"

definition FillPedestalHistograms :: "externals \<Rightarrow> Cell list \<Rightarrow> TriggerRecord list
    \<Rightarrow> RawQcTask \<Rightarrow> error + RawQcTask" where
  "FillPedestalHistograms x cells cellsTR s =
     allCells (pedestalCell x) cells cellsTR (FillPedestal_head s)"

subsection \<open>FillLEDHistograms\<close>



subsection \<open>monitorData\<close>



subsection \<open>endOfCycle\<close>

definition endOfCycle_chi2 :: "nat \<Rightarrow> RawQcTask \<Rightarrow> RawQcTask" where
  "endOfCycle_chi2 modl s = Divide (kChi2M1 modl) (kChi2NormM1 modl) s"

text \<open>
  The body of the loops over \<open>iz\<close> and \<open>ix\<close>, on the state and the running \<open>occMin\<close> and
  \<open>occMax\<close>. \<open>GetBinContent(iz, ix)\<close> reads the global bin \<open>GetBin(iz, ix)\<close>.
\<close>

definition scanCell :: "hist2D \<Rightarrow> hist2D \<Rightarrow> hist2D \<Rightarrow> hist1D \<Rightarrow> hist1D \<Rightarrow> nat \<Rightarrow> nat
    \<Rightarrow> RawQcTask \<times> real \<times> real \<Rightarrow> RawQcTask \<times> real \<times> real" where
  "scanCell mean rms occup meanSummary rmsSummary iz ix = (\<lambda>(s, occMin, occMax).
     let a = TH2_GetBinContent (mHist2D s mean) (int (TH2_GetBin (mHist2D s mean) iz ix));
         s = (if a > 0 then Fill1D meanSummary a s else s);
         a = TH2_GetBinContent (mHist2D s rms) (int (TH2_GetBin (mHist2D s rms) iz ix));
         s = (if a > 0 then Fill1D rmsSummary a s else s);
         a = TH2_GetBinContent (mHist2D s occup) (int (TH2_GetBin (mHist2D s occup) iz ix));
         occMin = (if a > 0 \<and> a < occMin then a else occMin);
         occMax = (if a > 0 \<and> a > occMax then a else occMax)
     in (s, occMin, occMax))"

text \<open>
  The two loops, \<open>iz\<close> from 1 to 64 and \<open>ix\<close> from 1 to 56, started with
  \<open>occMin = 1.e+9\<close> and \<open>occMax = 0\<close>.
\<close>

definition scanGrid :: "hist2D \<Rightarrow> hist2D \<Rightarrow> hist2D \<Rightarrow> hist1D \<Rightarrow> hist1D
    \<Rightarrow> RawQcTask \<Rightarrow> RawQcTask \<times> real \<times> real" where
  "scanGrid mean rms occup meanSummary rmsSummary s =
     fold (\<lambda>iz. fold (scanCell mean rms occup meanSummary rmsSummary iz) [1..<57])
          [1..<65] (s, 1000000000, 0)"

text \<open>One gain of one module: divide, rebuild the summaries, set the display range.\<close>

definition finalizeGain :: "hist2D \<Rightarrow> hist2D \<Rightarrow> hist2D \<Rightarrow> hist1D \<Rightarrow> hist1D
    \<Rightarrow> RawQcTask \<Rightarrow> RawQcTask" where
  "finalizeGain mean rms occup meanSummary rmsSummary s =
     (let s = Divide mean occup s;
          s = Divide rms occup s;
          s = Reset1D meanSummary s;
          s = Reset1D rmsSummary s;
          (s, occMin, occMax) = scanGrid mean rms occup meanSummary rmsSummary s;
          s = s\<lparr>mHist2D := (mHist2D s)(occup := TH2_SetMinimum (mHist2D s occup) occMin)\<rparr>;
          s = s\<lparr>mHist2D := (mHist2D s)(occup := TH2_SetMaximum (mHist2D s occup) occMax)\<rparr>
      in s)"

definition endOfCycle_pedestal :: "nat \<Rightarrow> RawQcTask \<Rightarrow> RawQcTask" where
  "endOfCycle_pedestal modl s =
     (let s = finalizeGain (kHGmeanM1 modl) (kHGrmsM1 modl) (kHGoccupM1 modl)
                (kHGmeanSummaryM1 modl) (kHGrmsSummaryM1 modl) s;
          s = finalizeGain (kLGmeanM1 modl) (kLGrmsM1 modl) (kLGoccupM1 modl)
                (kLGmeanSummaryM1 modl) (kLGrmsSummaryM1 modl) s
      in s)"

text \<open>
  The LED part, for one channel: the number of peaks of its spectrum goes to the bin
  of the channel in \<open>mHist2D[kLEDNpeaksM1 + mod]\<close>.
\<close>

definition countPeaks :: "externals \<Rightarrow> int \<Rightarrow> RawQcTask \<Rightarrow> error + RawQcTask" where
  "countPeaks x absId s =
     (let i = absId - 1793
      in if i < 0 \<or> int (length (mSpectra s)) \<le> i then Inl SpectrumIndexOutOfRange
         else
           (let npeaks = Search x (mSpectra s ! nat i);
                (ok, relid0, relid1, relid2) = absToRelNumbering x absId
            in if relid0 - 1 < 0 \<or> 3 < relid0 - 1 then Inl HistogramIndexOutOfRange
               else
                 (let modl = nat (relid0 - 1);
                      ibin = TH2_FindBin (mHist2D s (kLEDNpeaksM1 modl))
                               (real_of_int relid1 - 0.5) (real_of_int relid2 - 0.5)
                  in Inr (SetBinContent2D (kLEDNpeaksM1 modl) (int ibin) (real_of_int npeaks) s))))"

text \<open>
  \<open>endOfCycle\<close>. In pedestal mode with \<open>mFinalized\<close> set the function returns before
  anything else is done: the chi2 block above the return is guarded by the same flag.
\<close>

definition endOfCycle :: "externals \<Rightarrow> RawQcTask \<Rightarrow> error + RawQcTask" where
  "endOfCycle x s =
     (let s = (if mCheckChi2 s \<and> \<not> mFinalized s then fold endOfCycle_chi2 [0..<4] s else s)
      in if mMode s = 1 \<and> mFinalized s then Inr s
         else
           (let s = (if mMode s = 1
                     then (fold endOfCycle_pedestal [0..<4] s)\<lparr>mFinalized := True\<rparr>
                     else s)
            in if mMode s = 2 then forEach (countPeaks x) [1793..NCHANNELS] s else Inr s))"

definition endOfActivity :: "externals \<Rightarrow> RawQcTask \<Rightarrow> error + RawQcTask" where
  "endOfActivity x s = endOfCycle x s"

subsection \<open>reset and startOfActivity\<close>

definition reset :: "RawQcTask \<Rightarrow> RawQcTask" where
  "reset s = s\<lparr>mFinalized := False,
               mHist1D := (\<lambda>i. TH1_Reset (mHist1D s i)),
               mHist2D := (\<lambda>i. TH2_Reset (mHist2D s i))\<rparr>"

definition startOfActivity :: "RawQcTask \<Rightarrow> RawQcTask" where
  "startOfActivity s = reset s"

subsection \<open>InitHistograms\<close>

text \<open>
  The histograms as \<open>InitHistograms\<close> and the \<open>Create...Histograms\<close> functions construct
  them, with the display range they set. The spectra of the channels 1793 to
  \<open>NCHANNELS\<close> exist in LED mode only.
\<close>

definition grid :: "real \<Rightarrow> real \<Rightarrow> TH2F" where
  "grid lo hi = (new_TH2F 64 0 64 56 0 56)\<lparr>fMinimum := lo, fMaximum := hi\<rparr>"

fun create2D :: "hist2D \<Rightarrow> TH2F" where
  "create2D kErrorNumber = new_TH2F 32 0 32 15 0 15"
| "create2D kErrorType = new_TH2F 32 0 32 15 0 15"
| "create2D (kChi2M1 modl) = grid 0 (- 1111)"
| "create2D (kChi2NormM1 modl) = grid 0 (- 1111)"
| "create2D (kHGmeanM1 modl) = grid 0 100"
| "create2D (kHGrmsM1 modl) = grid 0 2"
| "create2D (kHGoccupM1 modl) = grid (- 1111) (- 1111)"
| "create2D (kLGmeanM1 modl) = grid 0 100"
| "create2D (kLGrmsM1 modl) = grid 0 2"
| "create2D (kLGoccupM1 modl) = grid (- 1111) (- 1111)"
| "create2D (kCellOccupM1 modl) = grid 0 (- 1111)"
| "create2D (kCellEM1 modl) = grid 0 (- 1111)"
| "create2D (kTimeEM1 modl) =
     (new_TH2F 50 0 1000 50 (- 5 / 10000000) (5 / 10000000))\<lparr>fMinimum := 0\<rparr>"
| "create2D (kLEDNpeaksM1 modl) = grid 0 (- 1111)"

fun create1D :: "hist1D \<Rightarrow> TH1F" where
  "create1D kBadMapSummary = new_TH1F 4 1 5"
| "create1D (kHGmeanSummaryM1 modl) = new_TH1F 100 0 100"
| "create1D (kHGrmsSummaryM1 modl) = new_TH1F 100 0 10"
| "create1D (kLGmeanSummaryM1 modl) = new_TH1F 100 0 100"
| "create1D (kLGrmsSummaryM1 modl) = new_TH1F 100 0 10"
| "create1D (kCellSpM1 modl) = new_TH1F 100 0 1000"

definition InitHistograms :: "int \<Rightarrow> bool \<Rightarrow> RawQcTask" where
  "InitHistograms mode chi2 =
     \<lparr>mMode = mode, mCheckChi2 = chi2, mFinalized = False, mInitBadMap = True,
      mHist1D = create1D, mHist2D = create2D,
      mSpectra = (if mode = 2 then map (\<lambda>absId. new_TH1F 487 50 1024) [1793..NCHANNELS] else [])\<rparr>"

subsection \<open>Reading the state\<close>





subsection \<open>The grid pairs of the pedestal family\<close>

text \<open>
  The value grids that \<open>endOfCycle\<close> divides and \<open>startOfCycle\<close> multiplies, for the
  modules of a list, and the occupancy grid each of them is divided and multiplied by.
\<close>

definition valueGridIn :: "nat list \<Rightarrow> hist2D \<Rightarrow> bool" where
  "valueGridIn ms k =
     (\<exists>m \<in> set ms. k = kHGmeanM1 m \<or> k = kHGrmsM1 m \<or> k = kLGmeanM1 m \<or> k = kLGrmsM1 m)"

fun occupancyOf :: "hist2D \<Rightarrow> hist2D" where
  "occupancyOf (kHGmeanM1 m) = kHGoccupM1 m"
| "occupancyOf (kHGrmsM1 m) = kHGoccupM1 m"
| "occupancyOf (kLGmeanM1 m) = kLGoccupM1 m"
| "occupancyOf (kLGrmsM1 m) = kLGoccupM1 m"
| "occupancyOf k = k"

text \<open>
  The state \<open>endOfCycle\<close> produces in pedestal mode from a state that is not finalized,
  and the state \<open>startOfCycle\<close> produces in pedestal mode from a finalized one.
\<close>

definition pedestalFinalized :: "RawQcTask \<Rightarrow> RawQcTask" where
  "pedestalFinalized s =
     (fold endOfCycle_pedestal [0..<4]
        (if mCheckChi2 s then fold endOfCycle_chi2 [0..<4] s else s))\<lparr>mFinalized := True\<rparr>"

definition pedestalRestored :: "RawQcTask \<Rightarrow> RawQcTask" where
  "pedestalRestored s =
     (fold startOfCycle_pedestal [0..<4]
        (if mCheckChi2 s then fold startOfCycle_chi2 [0..<4] s else s))\<lparr>mFinalized := False\<rparr>"

subsection \<open>Reading the error tally\<close>



text \<open>The two histograms of the tally, and the mask held by a bin of \<open>ErrorTypePerDDL\<close>.\<close>

definition errorTally :: "RawQcTask \<Rightarrow> TH2F \<times> TH2F" where
  "errorTally s = (mHist2D s kErrorNumber, mHist2D s kErrorType)"



subsection \<open>Sequences of calls\<close>



subsection \<open>The decoder and its status\<close>

text \<open>
  Modelled from the spec: the channel decoder belongs to the geometry library, not to
  the source file. The spec has it map an address to a module, a row of 64 and a column
  of 56, and fail outside the valid span; the source numbers modules, rows and columns
  from 1 and runs its channel loops from 1793 to \<open>NCHANNELS\<close>. The status is whether
  the address lies in that span; the three numbers are computed for every address
  (the concrete runs use addresses from 1 on, where the division of C and \<open>div\<close>
  agree).
\<close>

definition Geometry_absToRelNumbering :: "int \<Rightarrow> bool \<times> int \<times> int \<times> int" where
  "Geometry_absToRelNumbering absId =
     (let phosmodulenumber = (absId - 1) div 3584;
          rest = (absId - 1) mod 3584
      in (1793 \<le> absId \<and> absId \<le> NCHANNELS,
          phosmodulenumber + 1, 1 + rest div 56, 1 + rest mod 56))"

text \<open>
  The externals with another decoding status: the decoder leaves the same three numbers
  and returns \<open>b absId\<close>.
\<close>

definition withStatus :: "(int \<Rightarrow> bool) \<Rightarrow> externals \<Rightarrow> externals" where
  "withStatus b x =
     x\<lparr>absToRelNumbering := (\<lambda>absId. (b absId, snd (absToRelNumbering x absId)))\<rparr>"

text \<open>The module number \<open>relid[0]\<close> that the decoder leaves for a cell.\<close>

definition moduleNumber :: "externals \<Rightarrow> Cell \<Rightarrow> int" where
  "moduleNumber x c = fst (snd (absToRelNumbering x (getAbsId c)))"


subsection \<open>Concrete inputs and states\<close>

text \<open>The decoder above, the threshold 10 and a peak search that finds no peak.\<close>

definition testExternals :: externals where
  "testExternals =
     \<lparr>absToRelNumbering = Geometry_absToRelNumbering, kOcccupancyTh = 10, Search = (\<lambda>h. 0)\<rparr>"

text \<open>A physics task after \<open>InitHistograms\<close>, and a low-gain cell of energy 0.5.\<close>

definition physicsTask :: RawQcTask where
  "physicsTask = InitHistograms 0 False"

definition lowCell :: Cell where
  "lowCell = \<lparr>getAbsId = 1793, getEnergy = 0.5, getTime = 0, getHighGain = False\<rparr>"


text \<open>
  A pedestal task after \<open>InitHistograms\<close> whose high-gain mean grid of module 0 holds
  \<open>v\<close> and whose occupancy grid holds \<open>n\<close> in global bin 67, the cell of row 1 and
  column 1.
\<close>

definition pedestalTask :: "real \<Rightarrow> real \<Rightarrow> RawQcTask" where
  "pedestalTask v n =
     SetBinContent2D (kHGoccupM1 0) 67 n
       (SetBinContent2D (kHGmeanM1 0) 67 v (InitHistograms 1 False))"

text \<open>Two cells of channel 1793: high gain with energy 20, low gain with energy 2.5.\<close>

definition sampleCells :: "Cell list" where
  "sampleCells =
     [\<lparr>getAbsId = 1793, getEnergy = 20, getTime = 0, getHighGain = True\<rparr>,
      \<lparr>getAbsId = 1793, getEnergy = 2.5, getTime = 0, getHighGain = False\<rparr>]"





section \<open>Properties\<close>

subsection \<open>The scan of endOfCycle changes the summaries only\<close>

lemma scanCell_frame:
  "\<exists>h a' b'. scanCell mean rms occup ms rs iz ix (s, a, b) = (s\<lparr>mHist1D := h\<rparr>, a', b')"
proof -
  have "fst (scanCell mean rms occup ms rs iz ix (s, a, b)) = s\<lparr>mHist1D := mHist1D (fst (scanCell mean rms occup ms rs iz ix (s, a, b)))\<rparr>"
    by (simp add: scanCell_def Let_def Fill1D_def)
  then show ?thesis
    by (metis prod.collapse)
qed


lemma scan_row_frame:
  "\<exists>h a' b'. fold (scanCell mean rms occup ms rs iz) xs (s\<lparr>mHist1D := g\<rparr>, a, b) = (s\<lparr>mHist1D := h\<rparr>, a', b')"
proof (induction xs arbitrary: g a b)
  case Nil
  show ?case by (rule exI [of _ g], rule exI [of _ a], rule exI [of _ b]) simp
next
  case (Cons ix xs)
  obtain h a' b' where "scanCell mean rms occup ms rs iz ix (s\<lparr>mHist1D := g\<rparr>, a, b) = (s\<lparr>mHist1D := g, mHist1D := h\<rparr>, a', b')"
    using scanCell_frame by blast
  then show ?case using Cons.IH [of h a' b'] by simp
qed

lemma scan_frame:
  "\<exists>h a' b'. fold (\<lambda>iz. fold (scanCell mean rms occup ms rs iz) xs) zs (s\<lparr>mHist1D := g\<rparr>, a, b) = (s\<lparr>mHist1D := h\<rparr>, a', b')"
proof (induction zs arbitrary: g a b)
  case Nil
  show ?case by (rule exI [of _ g], rule exI [of _ a], rule exI [of _ b]) simp
next
  case (Cons iz zs)
  obtain h a' b' where "fold (scanCell mean rms occup ms rs iz) xs (s\<lparr>mHist1D := g\<rparr>, a, b) = (s\<lparr>mHist1D := h\<rparr>, a', b')"
    using scan_row_frame by blast
  then show ?case using Cons.IH [of h a' b'] by simp
qed

lemma scanGrid_frame:
  "\<exists>h a' b'. scanGrid mean rms occup ms rs (s\<lparr>mHist1D := g\<rparr>) = (s\<lparr>mHist1D := h\<rparr>, a', b')"
  unfolding scanGrid_def by (rule scan_frame)


lemma finalizeGain_shape:
  "\<exists>h lo hi. finalizeGain mean rms occup ms rs s =
     s\<lparr>mHist1D := h,
       mHist2D := (mHist2D (Divide rms occup (Divide mean occup s)))
          (occup := (mHist2D (Divide rms occup (Divide mean occup s)) occup)\<lparr>fMinimum := lo, fMaximum := hi\<rparr>)\<rparr>"
proof -
  let ?s = "Divide rms occup (Divide mean occup s)"
  have "\<exists>g. Reset1D rs (Reset1D ms ?s) = ?s\<lparr>mHist1D := g\<rparr>"
    by (rule exI [of _ "mHist1D (Reset1D rs (Reset1D ms ?s))"]) (simp add: Reset1D_def)
  then obtain g where eq: "Reset1D rs (Reset1D ms ?s) = ?s\<lparr>mHist1D := g\<rparr>" ..
  obtain h a' b' where sc:
    "scanGrid mean rms occup ms rs (?s\<lparr>mHist1D := g\<rparr>) = (?s\<lparr>mHist1D := h\<rparr>, a', b')"
    using scanGrid_frame by blast
  have "finalizeGain mean rms occup ms rs s =
     s\<lparr>mHist1D := h,
       mHist2D := (mHist2D ?s)(occup := (mHist2D ?s occup)\<lparr>fMinimum := a', fMaximum := b'\<rparr>)\<rparr>"
    unfolding finalizeGain_def Let_def eq sc
    by (simp add: TH2_SetMinimum_def TH2_SetMaximum_def Divide_def)
  then show ?thesis by blast
qed


subsection \<open>Cells, sizes and flags under the histogram calls\<close>

lemma Divide_cell:
  "cellContent (Divide a b s) k i =
     (if k = a \<and> i < nCells s a then cellContent s a i / cellContent s b i else cellContent s k i)"
  by (simp add: Divide_def cellContent_def nCells_def TH2_Divide_def)

lemma Multiply_cell:
  "cellContent (Multiply a b s) k i =
     (if k = a \<and> i < nCells s a then cellContent s a i * cellContent s b i else cellContent s k i)"
  by (simp add: Multiply_def cellContent_def nCells_def TH2_Multiply_def)

lemma Divide_nCells: "nCells (Divide a b s) k = nCells s k"
  by (simp add: Divide_def nCells_def TH2_Divide_def TH2_fNcells_def)

lemma Multiply_nCells: "nCells (Multiply a b s) k = nCells s k"
  by (simp add: Multiply_def nCells_def TH2_Multiply_def TH2_fNcells_def)

lemma Divide_flags:
  "mMode (Divide a b s) = mMode s" "mFinalized (Divide a b s) = mFinalized s"
  "mCheckChi2 (Divide a b s) = mCheckChi2 s" "mInitBadMap (Divide a b s) = mInitBadMap s"
  "mSpectra (Divide a b s) = mSpectra s" "mHist1D (Divide a b s) = mHist1D s"
  by (simp_all add: Divide_def)

lemma Multiply_flags:
  "mMode (Multiply a b s) = mMode s" "mFinalized (Multiply a b s) = mFinalized s"
  "mCheckChi2 (Multiply a b s) = mCheckChi2 s" "mInitBadMap (Multiply a b s) = mInitBadMap s"
  "mSpectra (Multiply a b s) = mSpectra s" "mHist1D (Multiply a b s) = mHist1D s"
  by (simp_all add: Multiply_def)

lemma finalizeGain_flags:
  "mMode (finalizeGain mean rms occup ms rs s) = mMode s"
  "mFinalized (finalizeGain mean rms occup ms rs s) = mFinalized s"
  "mCheckChi2 (finalizeGain mean rms occup ms rs s) = mCheckChi2 s"
  "mInitBadMap (finalizeGain mean rms occup ms rs s) = mInitBadMap s"
  "mSpectra (finalizeGain mean rms occup ms rs s) = mSpectra s"
  using finalizeGain_shape [of mean rms occup ms rs s] by auto

lemma finalizeGain_cell:
  "cellContent (finalizeGain mean rms occup ms rs s) k i =
     cellContent (Divide rms occup (Divide mean occup s)) k i"
  using finalizeGain_shape [of mean rms occup ms rs s]
  by (auto simp: cellContent_def)

lemma finalizeGain_nCells: "nCells (finalizeGain mean rms occup ms rs s) k = nCells s k"
proof -
  have "nCells (finalizeGain mean rms occup ms rs s) k = nCells (Divide rms occup (Divide mean occup s)) k"
    using finalizeGain_shape [of mean rms occup ms rs s]
    by (auto simp: nCells_def TH2_fNcells_def)
  then show ?thesis by (simp add: Divide_nCells)
qed


subsection \<open>One module, then the four of them\<close>

lemma endOfCycle_pedestal_cell:
  "cellContent (endOfCycle_pedestal m s) k i =
     (if (k = kHGmeanM1 m \<or> k = kHGrmsM1 m) \<and> i < nCells s k
      then cellContent s k i / cellContent s (kHGoccupM1 m) i
      else if (k = kLGmeanM1 m \<or> k = kLGrmsM1 m) \<and> i < nCells s k
      then cellContent s k i / cellContent s (kLGoccupM1 m) i
      else cellContent s k i)"
  by (auto simp: endOfCycle_pedestal_def Let_def finalizeGain_cell Divide_cell
      finalizeGain_nCells Divide_nCells)

lemma endOfCycle_pedestal_nCells: "nCells (endOfCycle_pedestal m s) k = nCells s k"
  by (simp add: endOfCycle_pedestal_def Let_def finalizeGain_nCells)

lemma endOfCycle_pedestal_flags:
  "mMode (endOfCycle_pedestal m s) = mMode s"
  "mFinalized (endOfCycle_pedestal m s) = mFinalized s"
  "mCheckChi2 (endOfCycle_pedestal m s) = mCheckChi2 s"
  by (simp_all add: endOfCycle_pedestal_def Let_def finalizeGain_flags)

lemma startOfCycle_pedestal_cell:
  "cellContent (startOfCycle_pedestal m s) k i =
     (if (k = kHGmeanM1 m \<or> k = kHGrmsM1 m) \<and> i < nCells s k
      then cellContent s k i * cellContent s (kHGoccupM1 m) i
      else if (k = kLGmeanM1 m \<or> k = kLGrmsM1 m) \<and> i < nCells s k
      then cellContent s k i * cellContent s (kLGoccupM1 m) i
      else cellContent s k i)"
  by (auto simp: startOfCycle_pedestal_def Let_def Multiply_cell Multiply_nCells)

lemma startOfCycle_pedestal_nCells: "nCells (startOfCycle_pedestal m s) k = nCells s k"
  by (simp add: startOfCycle_pedestal_def Let_def Multiply_nCells)

lemma startOfCycle_pedestal_flags:
  "mMode (startOfCycle_pedestal m s) = mMode s"
  "mFinalized (startOfCycle_pedestal m s) = mFinalized s"
  "mCheckChi2 (startOfCycle_pedestal m s) = mCheckChi2 s"
  by (simp_all add: startOfCycle_pedestal_def Let_def Multiply_flags)


lemma fold_endOfCycle_pedestal_nCells: "nCells (fold endOfCycle_pedestal ms s) k = nCells s k"
  by (induction ms arbitrary: s) (simp_all add: endOfCycle_pedestal_nCells)

lemma fold_endOfCycle_pedestal_flags:
  "mMode (fold endOfCycle_pedestal ms s) = mMode s"
  "mFinalized (fold endOfCycle_pedestal ms s) = mFinalized s"
  "mCheckChi2 (fold endOfCycle_pedestal ms s) = mCheckChi2 s"
  by (induction ms arbitrary: s) (simp_all add: endOfCycle_pedestal_flags)

lemma fold_endOfCycle_pedestal_cell:
  "distinct ms \<Longrightarrow>
   cellContent (fold endOfCycle_pedestal ms s) k i =
     (if valueGridIn ms k \<and> i < nCells s k
      then cellContent s k i / cellContent s (occupancyOf k) i
      else cellContent s k i)"
proof (induction ms arbitrary: s)
  case Nil
  then show ?case by (simp add: valueGridIn_def)
next
  case (Cons m ms)
  have "cellContent (fold endOfCycle_pedestal (m # ms) s) k i =
        cellContent (fold endOfCycle_pedestal ms (endOfCycle_pedestal m s)) k i"
    by simp
  also have "\<dots> = (if valueGridIn ms k \<and> i < nCells s k
      then cellContent (endOfCycle_pedestal m s) k i / cellContent (endOfCycle_pedestal m s) (occupancyOf k) i
      else cellContent (endOfCycle_pedestal m s) k i)"
    using Cons by (simp add: endOfCycle_pedestal_nCells)
  also have "\<dots> = (if valueGridIn (m # ms) k \<and> i < nCells s k
      then cellContent s k i / cellContent s (occupancyOf k) i
      else cellContent s k i)"
    using Cons.prems
    by (auto simp: valueGridIn_def endOfCycle_pedestal_cell)
  finally show ?case .
qed


lemma fold_startOfCycle_pedestal_nCells: "nCells (fold startOfCycle_pedestal ms s) k = nCells s k"
  by (induction ms arbitrary: s) (simp_all add: startOfCycle_pedestal_nCells)

lemma fold_startOfCycle_pedestal_flags:
  "mMode (fold startOfCycle_pedestal ms s) = mMode s"
  "mFinalized (fold startOfCycle_pedestal ms s) = mFinalized s"
  "mCheckChi2 (fold startOfCycle_pedestal ms s) = mCheckChi2 s"
  by (induction ms arbitrary: s) (simp_all add: startOfCycle_pedestal_flags)

lemma fold_startOfCycle_pedestal_cell:
  "distinct ms \<Longrightarrow>
   cellContent (fold startOfCycle_pedestal ms s) k i =
     (if valueGridIn ms k \<and> i < nCells s k
      then cellContent s k i * cellContent s (occupancyOf k) i
      else cellContent s k i)"
proof (induction ms arbitrary: s)
  case Nil
  then show ?case by (simp add: valueGridIn_def)
next
  case (Cons m ms)
  have "cellContent (fold startOfCycle_pedestal (m # ms) s) k i =
        cellContent (fold startOfCycle_pedestal ms (startOfCycle_pedestal m s)) k i"
    by simp
  also have "\<dots> = (if valueGridIn ms k \<and> i < nCells s k
      then cellContent (startOfCycle_pedestal m s) k i * cellContent (startOfCycle_pedestal m s) (occupancyOf k) i
      else cellContent (startOfCycle_pedestal m s) k i)"
    using Cons by (simp add: startOfCycle_pedestal_nCells)
  also have "\<dots> = (if valueGridIn (m # ms) k \<and> i < nCells s k
      then cellContent s k i * cellContent s (occupancyOf k) i
      else cellContent s k i)"
    using Cons.prems
    by (auto simp: valueGridIn_def startOfCycle_pedestal_cell)
  finally show ?case .
qed

subsection \<open>The chi2 loops leave every other histogram alone\<close>

lemma fold_endOfCycle_chi2_frame:
  "mMode (fold endOfCycle_chi2 ms s) = mMode s"
  "mFinalized (fold endOfCycle_chi2 ms s) = mFinalized s"
  "mCheckChi2 (fold endOfCycle_chi2 ms s) = mCheckChi2 s"
  "nCells (fold endOfCycle_chi2 ms s) k = nCells s k"
  "(\<And>m. k \<noteq> kChi2M1 m) \<Longrightarrow> cellContent (fold endOfCycle_chi2 ms s) k i = cellContent s k i"
  by (induction ms arbitrary: s)
     (simp_all add: endOfCycle_chi2_def Divide_flags Divide_nCells Divide_cell)

lemma fold_startOfCycle_chi2_frame:
  "mMode (fold startOfCycle_chi2 ms s) = mMode s"
  "mFinalized (fold startOfCycle_chi2 ms s) = mFinalized s"
  "mCheckChi2 (fold startOfCycle_chi2 ms s) = mCheckChi2 s"
  "nCells (fold startOfCycle_chi2 ms s) k = nCells s k"
  "(\<And>m. k \<noteq> kChi2M1 m) \<Longrightarrow> cellContent (fold startOfCycle_chi2 ms s) k i = cellContent s k i"
  by (induction ms arbitrary: s)
     (simp_all add: startOfCycle_chi2_def Multiply_flags Multiply_nCells Multiply_cell)

lemma valueGridIn_not_chi2: "valueGridIn ms k \<Longrightarrow> k \<noteq> kChi2M1 m"
  by (auto simp: valueGridIn_def)

lemma valueGridIn_occupancy:
  "valueGridIn ms k \<Longrightarrow> \<not> valueGridIn ms' (occupancyOf k) \<and> occupancyOf k \<noteq> kChi2M1 m"
  by (auto simp: valueGridIn_def)

subsection \<open>endOfCycle in pedestal mode\<close>

lemma endOfCycle_pedestal_mode:
  assumes "mMode s = 1" "\<not> mFinalized s"
  shows "endOfCycle x s = Inr (pedestalFinalized s)"
  using assms unfolding endOfCycle_def pedestalFinalized_def Let_def
  by (simp add: fold_endOfCycle_chi2_frame fold_endOfCycle_pedestal_flags del: upt_rec_numeral)


lemma distinct_upt_0_4: "distinct [0..<4]"
  by (rule distinct_upt)

lemma pedestalFinalized_flags:
  "mMode (pedestalFinalized s) = mMode s" "mFinalized (pedestalFinalized s)"
  "mCheckChi2 (pedestalFinalized s) = mCheckChi2 s"
  unfolding pedestalFinalized_def
  by (simp_all add: fold_endOfCycle_chi2_frame fold_endOfCycle_pedestal_flags del: upt_rec_numeral)

lemma pedestalFinalized_nCells: "nCells (pedestalFinalized s) k = nCells s k"
proof -
  have "nCells (pedestalFinalized s) k =
        nCells (fold endOfCycle_pedestal [0..<4] (if mCheckChi2 s then fold endOfCycle_chi2 [0..<4] s else s)) k"
    unfolding pedestalFinalized_def by (simp add: nCells_def)
  then show ?thesis
    by (simp add: fold_endOfCycle_pedestal_nCells fold_endOfCycle_chi2_frame del: upt_rec_numeral)
qed

lemma pedestalFinalized_cell:
  assumes "\<And>m. k \<noteq> kChi2M1 m"
  shows "cellContent (pedestalFinalized s) k i =
     (if valueGridIn [0..<4] k \<and> i < nCells s k
      then cellContent s k i / cellContent s (occupancyOf k) i
      else cellContent s k i)"
proof -
  let ?s = "if mCheckChi2 s then fold endOfCycle_chi2 [0..<4] s else s"
  have fr: "cellContent ?s k' i = cellContent s k' i" if "\<And>m. k' \<noteq> kChi2M1 m" for k'
    using that by (simp add: fold_endOfCycle_chi2_frame del: upt_rec_numeral)
  have nc: "nCells ?s k = nCells s k"
    by (simp add: fold_endOfCycle_chi2_frame del: upt_rec_numeral)
  have "cellContent (pedestalFinalized s) k i = cellContent (fold endOfCycle_pedestal [0..<4] ?s) k i"
    unfolding pedestalFinalized_def by (simp add: cellContent_def)
  also have "\<dots> = (if valueGridIn [0..<4] k \<and> i < nCells ?s k
      then cellContent ?s k i / cellContent ?s (occupancyOf k) i
      else cellContent ?s k i)"
    by (rule fold_endOfCycle_pedestal_cell [OF distinct_upt_0_4])
  also have "\<dots> = (if valueGridIn [0..<4] k \<and> i < nCells s k
      then cellContent s k i / cellContent s (occupancyOf k) i
      else cellContent s k i)"
  proof (cases "valueGridIn [0..<4] k")
    case True
    have "cellContent ?s (occupancyOf k) i = cellContent s (occupancyOf k) i"
      by (rule fr) (use True valueGridIn_occupancy in blast)
    then show ?thesis unfolding nc fr [OF assms] by simp
  next
    case False
    then show ?thesis unfolding nc fr [OF assms] by simp
  qed
  finally show ?thesis .
qed

subsection \<open>startOfCycle in pedestal mode on a finalized state\<close>

lemma startOfCycle_pedestal_mode:
  assumes "mMode s = 1" "mFinalized s"
  shows "startOfCycle s = pedestalRestored s"
  using assms unfolding startOfCycle_def pedestalRestored_def Let_def
  by (simp add: fold_startOfCycle_chi2_frame del: upt_rec_numeral)

lemma pedestalRestored_cell:
  assumes "\<And>m. k \<noteq> kChi2M1 m"
  shows "cellContent (pedestalRestored s) k i =
     (if valueGridIn [0..<4] k \<and> i < nCells s k
      then cellContent s k i * cellContent s (occupancyOf k) i
      else cellContent s k i)"
proof -
  let ?s = "if mCheckChi2 s then fold startOfCycle_chi2 [0..<4] s else s"
  have fr: "cellContent ?s k' i = cellContent s k' i" if "\<And>m. k' \<noteq> kChi2M1 m" for k'
    using that by (simp add: fold_startOfCycle_chi2_frame del: upt_rec_numeral)
  have nc: "nCells ?s k = nCells s k"
    by (simp add: fold_startOfCycle_chi2_frame del: upt_rec_numeral)
  have "cellContent (pedestalRestored s) k i = cellContent (fold startOfCycle_pedestal [0..<4] ?s) k i"
    unfolding pedestalRestored_def by (simp add: cellContent_def)
  also have "\<dots> = (if valueGridIn [0..<4] k \<and> i < nCells ?s k
      then cellContent ?s k i * cellContent ?s (occupancyOf k) i
      else cellContent ?s k i)"
    by (rule fold_startOfCycle_pedestal_cell [OF distinct_upt_0_4])
  also have "\<dots> = (if valueGridIn [0..<4] k \<and> i < nCells s k
      then cellContent s k i * cellContent s (occupancyOf k) i
      else cellContent s k i)"
  proof (cases "valueGridIn [0..<4] k")
    case True
    have "cellContent ?s (occupancyOf k) i = cellContent s (occupancyOf k) i"
      by (rule fr) (use True valueGridIn_occupancy in blast)
    then show ?thesis unfolding nc fr [OF assms] by simp
  next
    case False
    then show ?thesis unfolding nc fr [OF assms] by simp
  qed
  finally show ?thesis .
qed

lemma pedestalRestored_flags:
  "mMode (pedestalRestored s) = mMode s" "\<not> mFinalized (pedestalRestored s)"
  unfolding pedestalRestored_def
  by (simp_all add: fold_startOfCycle_chi2_frame fold_startOfCycle_pedestal_flags del: upt_rec_numeral)

subsection \<open>Finalize, then un-finalize\<close>

text \<open>
  The content of a value cell after \<open>endOfCycle\<close> and \<open>startOfCycle\<close>, for any content
  before: the quotient by the occupancy, times the occupancy.
\<close>

lemma roundtrip_cell:
  assumes "mMode s = 1" "\<not> mFinalized s" "valueGridIn [0..<4] k"
  shows "endOfCycle x s = Inr (pedestalFinalized s)"
    and "cellContent (startOfCycle (pedestalFinalized s)) k i =
      (if i < nCells s k then cellContent s k i / cellContent s (occupancyOf k) i * cellContent s (occupancyOf k) i
       else cellContent s k i)"
    and "cellContent (startOfCycle (pedestalFinalized s)) (occupancyOf k) i = cellContent s (occupancyOf k) i"
    and "\<not> mFinalized (startOfCycle (pedestalFinalized s))"
proof -
  let ?f = "pedestalFinalized s"
  have st: "startOfCycle ?f = pedestalRestored ?f"
    by (rule startOfCycle_pedestal_mode) (simp_all add: pedestalFinalized_flags assms)
  have k: "\<And>m. k \<noteq> kChi2M1 m" using assms(3) valueGridIn_not_chi2 by blast
  have o: "\<And>m. occupancyOf k \<noteq> kChi2M1 m" "\<not> valueGridIn [0..<4] (occupancyOf k)"
    using assms(3) valueGridIn_occupancy by blast+
  show "endOfCycle x s = Inr ?f" by (rule endOfCycle_pedestal_mode) fact+
  show "cellContent (startOfCycle ?f) k i =
      (if i < nCells s k then cellContent s k i / cellContent s (occupancyOf k) i * cellContent s (occupancyOf k) i
       else cellContent s k i)"
    unfolding st
    by (simp add: pedestalRestored_cell [OF k] pedestalFinalized_cell [OF k]
        pedestalFinalized_cell [OF o(1)] pedestalFinalized_nCells assms(3) o(2))
  show "cellContent (startOfCycle ?f) (occupancyOf k) i = cellContent s (occupancyOf k) i"
    unfolding st
    by (simp add: pedestalRestored_cell [OF o(1)] pedestalFinalized_cell [OF o(1)] o(2))
  show "\<not> mFinalized (startOfCycle ?f)"
    unfolding st by (rule pedestalRestored_flags)
qed


lemma pedestalTask_simps:
  "mMode (pedestalTask v n) = 1" "\<not> mFinalized (pedestalTask v n)"
  "cellContent (pedestalTask v n) (kHGmeanM1 0) 67 = v"
  "cellContent (pedestalTask v n) (kHGoccupM1 0) 67 = n"
  "nCells (pedestalTask v n) (kHGmeanM1 0) = 3828"
  by (simp_all add: pedestalTask_def SetBinContent2D_def TH2_SetBinContent_def InitHistograms_def
      grid_def new_TH2F_def TH2_fNcells_def cellContent_def nCells_def)

lemma valueGridIn_HGmean_0: "valueGridIn [0..<4] (kHGmeanM1 0)"
  by (simp add: valueGridIn_def)

text \<open>
  Claim C1, as amended. In pedestal mode, on a state that is not finalized,
  \<open>endOfCycle\<close> returns a finalized state in which a cell of a mean or RMS grid holds its
  old content divided by the occupancy of the cell, and \<open>startOfCycle\<close> on that state
  clears the flag, leaves the occupancy and gives the cell its old content back,
  provided the occupancy of the cell is not zero or the cell held zero. The fill
  functions add to a value grid and to its occupancy grid together, so every cell
  they build is of that kind.
\<close>

theorem finalize_unfinalize_roundtrip:
  assumes "mMode s = 1" and "\<not> mFinalized s" and "valueGridIn [0..<4] k"
    and "cellContent s (occupancyOf k) i \<noteq> 0 \<or> cellContent s k i = 0"
  shows "\<exists>s1. endOfCycle x s = Inr s1 \<and> mFinalized s1
           \<and> cellContent s1 k i =
               (if i < nCells s k then cellContent s k i / cellContent s (occupancyOf k) i
                else cellContent s k i)
           \<and> \<not> mFinalized (startOfCycle s1)
           \<and> cellContent (startOfCycle s1) (occupancyOf k) i = cellContent s (occupancyOf k) i
           \<and> cellContent (startOfCycle s1) k i = cellContent s k i"
proof -
  have k: "\<And>m. k \<noteq> kChi2M1 m" using assms(3) valueGridIn_not_chi2 by blast
  note rt = roundtrip_cell(1) [OF assms(1-3), of x] roundtrip_cell(2-3) [OF assms(1-3), of i]
    roundtrip_cell(4) [OF assms(1-3)]
  have "cellContent (startOfCycle (pedestalFinalized s)) k i = cellContent s k i"
    using assms(4) by (auto simp: rt(2))
  moreover have "cellContent (pedestalFinalized s) k i =
               (if i < nCells s k then cellContent s k i / cellContent s (occupancyOf k) i
                else cellContent s k i)"
    by (simp add: pedestalFinalized_cell [OF k] assms(3))
  ultimately show ?thesis
    using rt(1,3,4) pedestalFinalized_flags(2) [of s] by blast
qed

theorem finalize_unfinalize_roundtrip_witness:
  "mMode (pedestalTask 6 3) = 1 \<and> \<not> mFinalized (pedestalTask 6 3)
   \<and> cellContent (pedestalTask 6 3) (kHGmeanM1 0) 67 = 6
   \<and> cellContent (pedestalTask 6 3) (kHGoccupM1 0) 67 = 3
   \<and> (\<exists>s1. endOfCycle testExternals (pedestalTask 6 3) = Inr s1
         \<and> cellContent s1 (kHGmeanM1 0) 67 = 2
         \<and> cellContent (startOfCycle s1) (kHGmeanM1 0) 67 = 6)"
  using finalize_unfinalize_roundtrip [of "pedestalTask 6 3" "kHGmeanM1 0" 67 testExternals]
  by (simp add: pedestalTask_simps valueGridIn_HGmean_0) blast

text \<open>
  The claim as stated, for arbitrary content, fails: a cell that holds 5 where the
  occupancy is 0 comes back as 0, since \<open>Divide\<close> stores 0 where the divisor is 0.
\<close>

theorem finalize_unfinalize_counterexample:
  "cellContent (pedestalTask 5 0) (kHGmeanM1 0) 67 = 5
   \<and> cellContent (pedestalTask 5 0) (kHGoccupM1 0) 67 = 0
   \<and> (case endOfCycle testExternals (pedestalTask 5 0) of
         Inl e \<Rightarrow> False
       | Inr s1 \<Rightarrow> cellContent (startOfCycle s1) (kHGmeanM1 0) 67 = 0)"
  using roundtrip_cell(1) [of "pedestalTask 5 0" "kHGmeanM1 0" testExternals]
    roundtrip_cell(2) [of "pedestalTask 5 0" "kHGmeanM1 0" 67]
  by (simp add: pedestalTask_simps valueGridIn_HGmean_0)


subsection \<open>endOfCycle on a finalized pedestal state\<close>

lemma endOfCycle_finalized: "mMode s = 1 \<Longrightarrow> mFinalized s \<Longrightarrow> endOfCycle x s = Inr s"
  by (simp add: endOfCycle_def)

text \<open>
  Claim C10. In pedestal mode \<open>endOfCycle\<close> on a finalized state returns the state as
  it is: every grid, every summary and every display range is unchanged. In any
  pedestal state \<open>endOfCycle\<close> returns a finalized state, on which \<open>endOfActivity\<close>,
  which calls \<open>endOfCycle\<close> again, changes nothing: no mean or RMS grid is divided
  twice.
\<close>

theorem endOfCycle_idempotent:
  assumes "mMode s = 1"
  shows "(mFinalized s \<longrightarrow> endOfCycle x s = Inr s \<and> endOfActivity x s = Inr s)
         \<and> (\<exists>s'. endOfCycle x s = Inr s' \<and> mFinalized s' \<and> endOfActivity x s' = Inr s')"
proof (cases "mFinalized s")
  case True
  then show ?thesis
    using assms by (simp add: endOfActivity_def endOfCycle_finalized)
next
  case False
  have "endOfCycle x s = Inr (pedestalFinalized s)"
    using assms False by (rule endOfCycle_pedestal_mode)
  moreover have "endOfActivity x (pedestalFinalized s) = Inr (pedestalFinalized s)"
    unfolding endOfActivity_def
    by (rule endOfCycle_finalized) (simp_all add: pedestalFinalized_flags assms)
  ultimately show ?thesis
    using False pedestalFinalized_flags(2) [of s] by blast
qed

theorem endOfCycle_idempotent_witness:
  "mMode ((pedestalTask 2 3)\<lparr>mFinalized := True\<rparr>) = 1
   \<and> mFinalized ((pedestalTask 2 3)\<lparr>mFinalized := True\<rparr>)
   \<and> endOfCycle testExternals ((pedestalTask 2 3)\<lparr>mFinalized := True\<rparr>)
       = Inr ((pedestalTask 2 3)\<lparr>mFinalized := True\<rparr>)
   \<and> endOfActivity testExternals ((pedestalTask 2 3)\<lparr>mFinalized := True\<rparr>)
       = Inr ((pedestalTask 2 3)\<lparr>mFinalized := True\<rparr>)"
  using endOfCycle_idempotent [of "(pedestalTask 2 3)\<lparr>mFinalized := True\<rparr>" testExternals]
  by (simp add: pedestalTask_simps)

subsection \<open>The physics rule\<close>

text \<open>
  Claim C4. A cell whose energy, after the scaling of low gain, does not exceed
  \<open>kOcccupancyTh\<close> leaves the whole task state as it is: occupancy, mean energy,
  spectrum and time-versus-energy grid included. So does a call of
  \<open>FillPhysicsHistograms\<close> on that one cell.
\<close>

theorem below_threshold_unchanged:
  assumes "scaledEnergy c \<le> kOcccupancyTh x"
  shows "physicsCell x c s = Inr s
         \<and> FillPhysicsHistograms x [c] [\<lparr>getFirstEntry = 0, getNumberOfObjects = 1\<rparr>] s = Inr s"
proof -
  have 1: "physicsCell x c s = Inr s"
    using assms by (simp add: physicsCell_def)
  have "[0..(0::int) + 1 - 1] = [0]"
    by (simp add: upto.simps)
  then have "eventCells (physicsCell x) [c] \<lparr>getFirstEntry = 0, getNumberOfObjects = 1\<rparr> s = Inr s"
    by (simp add: eventCells_def 1)
  then show ?thesis
    by (simp add: 1 FillPhysicsHistograms_def allCells_def)
qed

theorem below_threshold_unchanged_witness:
  "scaledEnergy lowCell = 8 \<and> kOcccupancyTh testExternals = 10
   \<and> physicsCell testExternals lowCell physicsTask = Inr physicsTask
   \<and> FillPhysicsHistograms testExternals [lowCell]
        [\<lparr>getFirstEntry = 0, getNumberOfObjects = 1\<rparr>] physicsTask = Inr physicsTask"
  using below_threshold_unchanged [of lowCell testExternals physicsTask]
  by (simp add: lowCell_def scaledEnergy_def testExternals_def)

subsection \<open>The cell loops\<close>

lemma forEach_cong:
  "(\<And>a s. a \<in> set xs \<Longrightarrow> f a s = g a s) \<Longrightarrow> forEach f xs s = forEach g xs s"
  by (induction xs arbitrary: s) (auto split: sum.splits)

lemma forEach_append:
  "forEach f (xs @ ys) s = (case forEach f xs s of Inl e \<Rightarrow> Inl e | Inr s' \<Rightarrow> forEach f ys s')"
  by (induction xs arbitrary: s) (auto split: sum.splits)

lemma allCells_cong:
  assumes "length cs = length cs'"
    and "\<And>i s. i < length cs \<Longrightarrow> body (cs ! i) s = body' (cs' ! i) s"
  shows "allCells body cs trs s = allCells body' cs' trs s"
proof -
  have "eventCells body cs tr s = eventCells body' cs' tr s" for tr s
    unfolding eventCells_def Let_def
    by (rule forEach_cong) (use assms in auto)
  then show ?thesis
    unfolding allCells_def by (intro forEach_cong)
qed




subsection \<open>Low gain\<close>

text \<open>
  Claim C5. A low-gain cell with energy \<open>e\<close> and a high-gain cell with energy \<open>16 * e\<close>
  at the same address and time are the same to the physics rule: the body of the loop
  gives the same result on every state (the same error, or the same state with the
  same mean energy, occupancy, spectrum and time-versus-energy grid), and so does
  \<open>FillPhysicsHistograms\<close> on the one cell. The energy is scaled before it is compared
  with the threshold.
\<close>

theorem low_gain_scaled_by_16:
  "physicsCell x \<lparr>getAbsId = a, getEnergy = e, getTime = t, getHighGain = False\<rparr> s
     = physicsCell x \<lparr>getAbsId = a, getEnergy = 16 * e, getTime = t, getHighGain = True\<rparr> s
   \<and> FillPhysicsHistograms x [\<lparr>getAbsId = a, getEnergy = e, getTime = t, getHighGain = False\<rparr>] trs s
     = FillPhysicsHistograms x [\<lparr>getAbsId = a, getEnergy = 16 * e, getTime = t, getHighGain = True\<rparr>] trs s"
proof -
  have 1: "physicsCell x \<lparr>getAbsId = a, getEnergy = e, getTime = t, getHighGain = False\<rparr> s
     = physicsCell x \<lparr>getAbsId = a, getEnergy = 16 * e, getTime = t, getHighGain = True\<rparr> s" for s
    by (simp add: physicsCell_def scaledEnergy_def mult.commute Let_def split: prod.splits)
  have 2: "allCells (physicsCell x) [\<lparr>getAbsId = a, getEnergy = e, getTime = t, getHighGain = False\<rparr>] trs s
     = allCells (physicsCell x) [\<lparr>getAbsId = a, getEnergy = 16 * e, getTime = t, getHighGain = True\<rparr>] trs s"
    by (rule allCells_cong) (simp_all add: 1)
  show ?thesis
    using 1 2 by (simp add: FillPhysicsHistograms_def)
qed

theorem low_gain_scaled_by_16_witness:
  "physicsCell testExternals \<lparr>getAbsId = 1793, getEnergy = 2, getTime = 0, getHighGain = False\<rparr> physicsTask
     = physicsCell testExternals \<lparr>getAbsId = 1793, getEnergy = 32, getTime = 0, getHighGain = True\<rparr> physicsTask"
  using low_gain_scaled_by_16 [of testExternals 1793 2 0 physicsTask "[]"] by simp

subsection \<open>Bins\<close>



subsection \<open>Cells and axes under the calls of the fill functions\<close>













subsection \<open>One accepted cell\<close>



subsection \<open>The running mean\<close>



lemma decode_1793: "absToRelNumbering testExternals 1793 = (True, 1, 33, 1)"
  by (simp add: testExternals_def Geometry_absToRelNumbering_def NCHANNELS_def)




subsection \<open>One error record\<close>


lemma recordError_frame:
  "mMode (recordError e s) = mMode s" "mCheckChi2 (recordError e s) = mCheckChi2 s"
  "mFinalized (recordError e s) = mFinalized s" "mInitBadMap (recordError e s) = mInitBadMap s"
  "mHist1D (recordError e s) = mHist1D s" "mSpectra (recordError e s) = mSpectra s"
  by (simp_all add: recordError_def Let_def SetBinContent2D_def Fill2D_def)

lemma recordError_other:
  "k \<noteq> kErrorNumber \<Longrightarrow> k \<noteq> kErrorType \<Longrightarrow> mHist2D (recordError e s) k = mHist2D s k"
  by (simp add: recordError_def Let_def SetBinContent2D_def Fill2D_def)





subsection \<open>The tally grows\<close>






subsection \<open>Nothing else writes the tally\<close>

lemma forEach_invariant:
  assumes "\<And>a s s'. f a s = Inr s' \<Longrightarrow> P s' = P s"
  shows "forEach f xs s = Inr s' \<Longrightarrow> P s' = P s"
proof (induction xs arbitrary: s)
  case Nil
  then show ?case by simp
next
  case (Cons a xs)
  then obtain s1 where "f a s = Inr s1" "forEach f xs s1 = Inr s'"
    by (auto split: sum.splits)
  then show ?case
    using Cons.IH assms by metis
qed


lemma errorTally_2D: "mHist2D s' = mHist2D s \<Longrightarrow> errorTally s' = errorTally s"
  by (simp add: errorTally_def)






























subsection \<open>The tally read by cell\<close>





subsection \<open>One error record, read by cell\<close>





lemma fold_recordError_finalized: "mFinalized (fold recordError es s) = mFinalized s"
  by (induction es arbitrary: s) (simp_all add: recordError_frame)







subsection \<open>The gain bit of a fit-quality address\<close>








subsection \<open>The loops run to their end\<close>

lemma forEach_total:
  "(\<And>a s. a \<in> set xs \<Longrightarrow> \<exists>s'. f a s = Inr s') \<Longrightarrow> \<exists>s'. forEach f xs s = Inr s'"
proof (induction xs arbitrary: s)
  case Nil
  show ?case by simp
next
  case (Cons a xs)
  obtain s1 where "f a s = Inr s1"
    using Cons.prems [of a s] by auto
  moreover obtain s' where "forEach f xs s1 = Inr s'"
    using Cons.IH [of s1] Cons.prems by auto
  ultimately show ?case by simp
qed

lemma allCells_total:
  assumes tr: "\<forall>tr \<in> set trs. 0 \<le> getFirstEntry tr
            \<and> getFirstEntry tr + getNumberOfObjects tr \<le> int (length cs)"
    and body: "\<And>c s. c \<in> set cs \<Longrightarrow> \<exists>s'. body c s = Inr s'"
  shows "\<exists>s'. allCells body cs trs s = Inr s'"
  unfolding allCells_def
proof (rule forEach_total)
  fix tr s
  assume "tr \<in> set trs"
  then have r: "0 \<le> getFirstEntry tr" "getFirstEntry tr + getNumberOfObjects tr \<le> int (length cs)"
    using tr by simp_all
  show "\<exists>s'. eventCells body cs tr s = Inr s'"
    unfolding eventCells_def Let_def
  proof (rule forEach_total)
    fix i s
    assume "i \<in> set [getFirstEntry tr..getFirstEntry tr + getNumberOfObjects tr - 1]"
    then have i: "0 \<le> i" "i < int (length cs)"
      using r by simp_all
    then have "cs ! nat i \<in> set cs"
      by simp
    then show "\<exists>s'. (if 0 \<le> i \<and> i < int (length cs) then body (cs ! nat i) s
                     else Inl SpanIndexOutOfRange) = Inr s'"
      using i body by simp
  qed
qed


lemma pedestalCell_total:
  "1 \<le> moduleNumber x c \<Longrightarrow> moduleNumber x c \<le> 4 \<Longrightarrow> \<exists>s'. pedestalCell x c s = Inr s'"
  by (auto simp: pedestalCell_def moduleNumber_def Let_def split: prod.splits)

subsection \<open>The head of FillPedestalHistograms\<close>

lemma FillPedestal_restore_eq: "FillPedestal_restore = startOfCycle_pedestal"
  by (rule ext)+ (simp add: FillPedestal_restore_def startOfCycle_pedestal_def)

lemma FillPedestal_head_cell:
  assumes "mFinalized s"
  shows "cellContent (FillPedestal_head s) k i =
     (if valueGridIn [0..<4] k \<and> i < nCells s k
      then cellContent s k i * cellContent s (occupancyOf k) i
      else cellContent s k i)"
proof -
  have "cellContent (FillPedestal_head s) k i = cellContent (fold startOfCycle_pedestal [0..<4] s) k i"
    using assms unfolding FillPedestal_head_def FillPedestal_restore_eq
    by (simp add: cellContent_def del: upt_rec_numeral)
  then show ?thesis
    by (simp only: fold_startOfCycle_pedestal_cell [OF distinct_upt_0_4])
qed

lemma FillPedestal_head_flag: "\<not> mFinalized (FillPedestal_head s)"
  by (simp add: FillPedestal_head_def)

subsection \<open>A guard in a loop\<close>

lemma forEach_guarded:
  assumes pres: "\<And>a s s'. f a s = Inr s' \<Longrightarrow> F s' = F s"
    and agree: "\<And>a s. \<not> F s \<Longrightarrow> g a s = f a s"
  shows "\<not> F s \<Longrightarrow> forEach g xs s = forEach f xs s"
proof (induction xs arbitrary: s)
  case Nil
  show ?case by simp
next
  case (Cons a xs)
  show ?case
  proof (cases "f a s")
    case (Inl e)
    then show ?thesis using agree [OF Cons.prems] by simp
  next
    case (Inr s1)
    then have "\<not> F s1" using pres Cons.prems by blast
    then show ?thesis using Inr agree [OF Cons.prems] Cons.IH by simp
  qed
qed

lemma allCells_guarded:
  assumes pres: "\<And>c s s'. body c s = Inr s' \<Longrightarrow> F s' = F s"
    and "\<not> F s"
  shows "allCells (\<lambda>c s. if F s then Inl e else body c s) cs trs s = allCells body cs trs s"
proof -
  let ?g = "\<lambda>c s. if F s then Inl e else body c s"
  let ?in = "\<lambda>b i s. if 0 \<le> i \<and> i < int (length cs) then b (cs ! nat i) s else Inl SpanIndexOutOfRange"
  have pin: "?in body i s = Inr s' \<Longrightarrow> F s' = F s" for i s s'
    using pres by (auto split: if_splits)
  have ag: "\<not> F s \<Longrightarrow> ?in ?g i s = ?in body i s" for i s
    by simp
  have ev: "eventCells ?g cs tr s = eventCells body cs tr s" if "\<not> F s" for tr s
    unfolding eventCells_def Let_def
    by (rule forEach_guarded [of "?in body" F "?in ?g", OF pin ag that])
  have pev: "eventCells body cs tr s = Inr s' \<Longrightarrow> F s' = F s" for tr s s'
    unfolding eventCells_def Let_def
    by (erule forEach_invariant [rotated]) (rule pin)
  show ?thesis
    unfolding allCells_def
    by (rule forEach_guarded [of "eventCells body cs" F "eventCells ?g cs", OF pev ev assms(2)])
qed

lemma allCells_invariant:
  assumes "\<And>c s s'. body c s = Inr s' \<Longrightarrow> P s' = P s"
  shows "allCells body cs trs s = Inr s' \<Longrightarrow> P s' = P s"
proof -
  have ev: "eventCells body cs tr s = Inr s' \<Longrightarrow> P s' = P s" for tr s s'
    unfolding eventCells_def Let_def
    by (erule forEach_invariant [rotated]) (auto split: if_splits dest: assms)
  show "allCells body cs trs s = Inr s' \<Longrightarrow> P s' = P s"
    unfolding allCells_def
    by (erule forEach_invariant [rotated]) (rule ev)
qed

lemma pedestalCell_flag: "pedestalCell x c s = Inr s' \<Longrightarrow> mFinalized s' = mFinalized s"
  by (auto simp: pedestalCell_def Let_def Fill2D_def split: prod.splits if_splits)

text \<open>
  Claim C2. When \<open>mFinalized\<close> is set on entry, the head of \<open>FillPedestalHistograms\<close>
  multiplies every cell of the mean and RMS grids of the four modules by the occupancy
  of the cell and leaves every other histogram cell; when it is not set, the head
  changes nothing. After the head the flag is clear. The loop that follows adds each
  cell to a state in which the flag is clear: a loop body that stops with an error on
  a finalized state gives the same result. The state returned has the flag clear.
\<close>

theorem pedestal_fill_on_raw_grids:
  "(mFinalized s \<longrightarrow>
      (\<forall>k i. cellContent (FillPedestal_head s) k i =
         (if valueGridIn [0..<4] k \<and> i < nCells s k
          then cellContent s k i * cellContent s (occupancyOf k) i
          else cellContent s k i)))
   \<and> (\<not> mFinalized s \<longrightarrow> FillPedestal_head s = s)
   \<and> \<not> mFinalized (FillPedestal_head s)
   \<and> FillPedestalHistograms x cs cellsTR s
       = allCells (\<lambda>c s. if mFinalized s then Inl e else pedestalCell x c s) cs cellsTR
           (FillPedestal_head s)
   \<and> (\<forall>s'. FillPedestalHistograms x cs cellsTR s = Inr s' \<longrightarrow> \<not> mFinalized s')"
proof (intro conjI impI allI)
  fix k i
  assume "mFinalized s"
  then show "cellContent (FillPedestal_head s) k i =
         (if valueGridIn [0..<4] k \<and> i < nCells s k
          then cellContent s k i * cellContent s (occupancyOf k) i
          else cellContent s k i)"
    by (rule FillPedestal_head_cell)
next
  assume "\<not> mFinalized s"
  then show "FillPedestal_head s = s"
    by (simp add: FillPedestal_head_def)
next
  show "\<not> mFinalized (FillPedestal_head s)"
    by (rule FillPedestal_head_flag)
next
  show "FillPedestalHistograms x cs cellsTR s
       = allCells (\<lambda>c s. if mFinalized s then Inl e else pedestalCell x c s) cs cellsTR
           (FillPedestal_head s)"
    unfolding FillPedestalHistograms_def
    by (rule allCells_guarded [where F = mFinalized, symmetric, OF pedestalCell_flag FillPedestal_head_flag])
next
  fix s'
  assume "FillPedestalHistograms x cs cellsTR s = Inr s'"
  then have "mFinalized s' = mFinalized (FillPedestal_head s)"
    unfolding FillPedestalHistograms_def
    by (rule allCells_invariant [rotated]) (rule pedestalCell_flag)
  then show "\<not> mFinalized s'"
    by (simp add: FillPedestal_head_flag)
qed

theorem pedestal_fill_on_raw_grids_witness:
  "mFinalized ((pedestalTask 2 3)\<lparr>mFinalized := True\<rparr>)
   \<and> cellContent ((pedestalTask 2 3)\<lparr>mFinalized := True\<rparr>) (kHGmeanM1 0) 67 = 2
   \<and> cellContent (FillPedestal_head ((pedestalTask 2 3)\<lparr>mFinalized := True\<rparr>)) (kHGmeanM1 0) 67 = 6
   \<and> \<not> mFinalized (FillPedestal_head ((pedestalTask 2 3)\<lparr>mFinalized := True\<rparr>))
   \<and> FillPedestal_head (pedestalTask 2 3) = pedestalTask 2 3
   \<and> (\<exists>s'. FillPedestalHistograms testExternals sampleCells
              [\<lparr>getFirstEntry = 0, getNumberOfObjects = 2\<rparr>] ((pedestalTask 2 3)\<lparr>mFinalized := True\<rparr>)
            = Inr s' \<and> \<not> mFinalized s')"
proof -
  let ?s = "(pedestalTask 2 3)\<lparr>mFinalized := True\<rparr>"
  let ?tr = "[\<lparr>getFirstEntry = 0, getNumberOfObjects = 2\<rparr>]"
  have c: "cellContent ?s k i = cellContent (pedestalTask 2 3) k i"
      "nCells ?s k = nCells (pedestalTask 2 3) k" for k i
    by (simp_all add: cellContent_def nCells_def)
  have m: "\<And>c. c \<in> set sampleCells \<Longrightarrow> 1 \<le> moduleNumber testExternals c \<and> moduleNumber testExternals c \<le> 4"
    by (auto simp: sampleCells_def moduleNumber_def decode_1793)
  have "\<exists>s'. allCells (pedestalCell testExternals) sampleCells ?tr (FillPedestal_head ?s) = Inr s'"
    by (rule allCells_total) (use m pedestalCell_total in \<open>auto simp: sampleCells_def\<close>)
  then obtain s' where s': "FillPedestalHistograms testExternals sampleCells ?tr ?s = Inr s'"
    unfolding FillPedestalHistograms_def by blast
  note t = pedestal_fill_on_raw_grids [of ?s testExternals sampleCells ?tr SpanIndexOutOfRange]
  have "\<not> mFinalized s'"
    using t s' by blast
  moreover have "FillPedestal_head (pedestalTask 2 3) = pedestalTask 2 3"
    using pedestal_fill_on_raw_grids [of "pedestalTask 2 3" testExternals "[]" "[]" SpanIndexOutOfRange]
    by (simp add: pedestalTask_simps)
  moreover have "cellContent (FillPedestal_head ?s) (kHGmeanM1 0) 67 = 6"
    "\<not> mFinalized (FillPedestal_head ?s)"
    using t by (simp_all add: c pedestalTask_simps valueGridIn_HGmean_0)
  ultimately show ?thesis
    using s' by (simp add: c pedestalTask_simps)
qed

subsection \<open>The status of the decoder\<close>

lemma withStatus_simps:
  "kOcccupancyTh (withStatus b x) = kOcccupancyTh x"
  "snd (absToRelNumbering (withStatus b x) a) = snd (absToRelNumbering x a)"
  by (simp_all add: withStatus_def)



subsection \<open>No cell is skipped\<close>





subsection \<open>The fill functions and the decoder\<close>





end
